theory Spec2Isabelle
  imports Main "HOL-Library.Word" "HOL-Library.Signed_Division"
begin

section \<open>Data model of package db\<close>

text \<open>
  Go's \<^verbatim>\<open>type Value int\<close>: a machine integer. The model fixes the 64-bit \<^verbatim>\<open>int\<close> of the
  usual targets, read as two's complement; \<open>+\<close>, \<open>-\<close> and \<open>*\<close> wrap around as Go's do.
\<close>

type_synonym Value = "64 word"

text \<open>\<^verbatim>\<open>type Action string\<close> with the two constants \<^verbatim>\<open>Withdraw\<close> and \<^verbatim>\<open>Deposit\<close>.
  The kind stays free text: any string can be read back from the file.\<close>

type_synonym Action = string

definition Withdraw :: Action where
  "Withdraw = ''withdraw''"

definition Deposit :: Action where
  "Deposit = ''deposit''"

definition ZeroValue :: Value where
  "ZeroValue = 0"

text \<open>\<^verbatim>\<open>time.Time\<close> is kept abstract as an instant number; the zero time is \<open>0\<close>.\<close>

type_synonym Time = int

record Transaction =
  Name :: string
  Amount :: Value
  Type :: Action
  Date :: Time

record Database =
  Name :: string
  Transactions :: "Transaction list"

datatype error =
    errTransactionNotFound
  | PathError string
  | JSONError string

text \<open>The zero values \<^verbatim>\<open>Transaction{}\<close> and \<^verbatim>\<open>Database{}\<close>.\<close>

definition Transaction_zero :: Transaction where
  "Transaction_zero = \<lparr>Transaction.Name = [], Amount = 0, Type = [], Date = 0\<rparr>"

definition Database_zero :: Database where
  "Database_zero = \<lparr>Database.Name = [], Transactions = []\<rparr>"

definition NewTransaction :: "Time \<Rightarrow> string \<Rightarrow> Action \<Rightarrow> Value \<Rightarrow> Transaction" where
  \<comment> \<open>the first argument is the reading of \<^verbatim>\<open>time.Now()\<close>\<close>
  "NewTransaction now name action amount =
     \<lparr>Transaction.Name = name, Amount = amount, Type = action, Date = now\<rparr>"

definition NewDatabase :: "string \<Rightarrow> Database" where
  "NewDatabase name = \<lparr>Database.Name = name, Transactions = []\<rparr>"

section \<open>The ledger: Size, Store, Delete, Read\<close>

text \<open>Indices are Go \<^verbatim>\<open>int\<close>s; a slice never holds more than \<open>2^63 - 1\<close> elements, so
  the length and the indices are modelled as unbounded \<open>int\<close>.\<close>

definition Size :: "Database \<Rightarrow> int" where
  "Size db = int (length (Transactions db))"

definition Store :: "Database \<Rightarrow> Transaction \<Rightarrow> Database" where
  "Store db transact = db\<lparr>Transactions := Transactions db @ [transact]\<rparr>"

text \<open>\<^verbatim>\<open>append(db.Transactions[:ID], db.Transactions[ID+1:]...)\<close> under the guard
  \<open>0 \<le> ID < Size\<close>: both slice expressions are in range there.\<close>

definition Delete :: "Database \<Rightarrow> int \<Rightarrow> Database \<times> error option" where
  "Delete db ID =
     (if ID < 0 \<or> ID \<ge> Size db then (db, Some errTransactionNotFound)
      else (db\<lparr>Transactions :=
                 take (nat ID) (Transactions db) @ drop (nat (ID + 1)) (Transactions db)\<rparr>,
            None))"

definition Read :: "Database \<Rightarrow> int \<Rightarrow> Transaction \<times> error option" where
  "Read db ID =
     (if ID < 0 \<or> ID \<ge> Size db then (Transaction_zero, Some errTransactionNotFound)
      else (Transactions db ! nat ID, None))"

text \<open>
  The earlier evolution of the same two methods (first \<^verbatim>\<open>package db\<close> text of the
  repository): the guard is \<^verbatim>\<open>ID > -1 && ID < db.Size()\<close>. Past the guard the index is out
  of range, so the slice expression \<^verbatim>\<open>db.Transactions[ID+1:]\<close> and the index expression
  \<^verbatim>\<open>db.Transactions[ID]\<close> panic at run time: \<open>None\<close> is that panic.
\<close>

definition Delete_v1 :: "Database \<Rightarrow> int \<Rightarrow> (Database \<times> error option) option" where
  "Delete_v1 db ID =
     (if ID > -1 \<and> ID < Size db then Some (db, Some errTransactionNotFound)
      else if 0 \<le> ID \<and> ID + 1 \<le> Size db
        then Some (db\<lparr>Transactions :=
                 take (nat ID) (Transactions db) @ drop (nat (ID + 1)) (Transactions db)\<rparr>,
              None)
      else None)"

definition Read_v1 :: "Database \<Rightarrow> int \<Rightarrow> (Transaction \<times> error option) option" where
  "Read_v1 db ID =
     (if ID > -1 \<and> ID < Size db then Some (Transaction_zero, Some errTransactionNotFound)
      else if 0 \<le> ID \<and> ID < Size db then Some (Transactions db ! nat ID, None)
      else None)"

section \<open>Monetary values\<close>

subsection \<open>Integer arithmetic of Go\<close>

text \<open>Go's \<^verbatim>\<open>/\<close> and \<^verbatim>\<open>%\<close> truncate towards zero; the quotient wraps at the one overflow
  (\<open>minInt / -1\<close>). The divisor is the currency ratio, never zero.\<close>

definition go_div :: "Value \<Rightarrow> Value \<Rightarrow> Value" where
  "go_div a b = word_of_int (sint a sdiv sint b)"

definition go_mod :: "Value \<Rightarrow> Value \<Rightarrow> Value" where
  "go_mod a b = word_of_int (sint a smod sint b)"

definition abs_Value :: "Value \<Rightarrow> Value" where
  "abs_Value x = (if x <s ZeroValue then - x else x)"

definition Add :: "Value \<Rightarrow> Value \<Rightarrow> Value" where
  "Add v a = v + a"

definition Smaller :: "Value \<Rightarrow> Value \<Rightarrow> bool" where
  "Smaller v a = (sint v < sint a)"

definition Larger :: "Value \<Rightarrow> Value \<Rightarrow> bool" where
  "Larger v a = (sint v > sint a)"

subsection \<open>The fragment of package fmt that the currency format uses\<close>

text \<open>
  A format string is kept as its sequence of directives: a literal byte, or the verb
  \<^verbatim>\<open>%d\<close> with its zero flag and width. Strings are byte sequences.
\<close>

datatype directive = Lit char | Int_d bool "nat option"

definition digit_char :: "nat \<Rightarrow> char" where
  "digit_char d = char_of (48 + d)"

fun dec_nat :: "nat \<Rightarrow> string" where
  "dec_nat n = (if n < 10 then [digit_char n] else dec_nat (n div 10) @ [digit_char (n mod 10)])"

declare dec_nat.simps [simp del]

text \<open>
  \<^verbatim>\<open>fmtInteger\<close> for base 10: the magnitude is taken in \<^verbatim>\<open>uint64\<close>, the zero flag
  with a width turns the width into a minimum digit count (one less when a sign is
  written), the sign goes in front, and what is still shorter than the width is padded
  with blanks on the left.
\<close>

definition fmt_d :: "bool \<Rightarrow> nat option \<Rightarrow> Value \<Rightarrow> string" where
  "fmt_d zero wid v =
     (let negative = (sint v < 0);
          u = (if negative then - v else v);
          ds = dec_nat (unat u);
          prec = (case wid of None \<Rightarrow> 0
                  | Some w \<Rightarrow> if zero then (if negative then w - 1 else w) else 0);
          zs = replicate (prec - length ds) (CHR ''0'') @ ds;
          sg = (if negative then CHR ''-'' # zs else zs)
      in replicate ((case wid of None \<Rightarrow> 0 | Some w \<Rightarrow> w) - length sg) (CHR '' '') @ sg)"

fun Sprintf :: "directive list \<Rightarrow> Value list \<Rightarrow> string" where
  "Sprintf [] args = []"
| "Sprintf (Lit c # ds) args = c # Sprintf ds args"
| "Sprintf (Int_d zero wid # ds) (a # args) = fmt_d zero wid a @ Sprintf ds args"
| "Sprintf (Int_d zero wid # ds) [] = ''%!d(MISSING)'' @ Sprintf ds []"

text \<open>
  Scanning. \<^verbatim>\<open>SkipSpace\<close> of \<^verbatim>\<open>Sscanf\<close> drops blanks and stops with an error at a
  newline (white space is recognised on ASCII here). \<^verbatim>\<open>scanInt\<close> then takes, within the
  width if there is one, an optional sign and a non-empty run of decimal digits, and
  \<^verbatim>\<open>strconv.ParseInt\<close> rejects a token outside the 64-bit range. \<open>None\<close> is any of the
  errors; \<^verbatim>\<open>Sscanf\<close> stops there and leaves the remaining operands as they were.
\<close>

definition is_digit :: "char \<Rightarrow> bool" where
  "is_digit c = (48 \<le> (of_char c :: nat) \<and> (of_char c :: nat) \<le> 57)"

definition is_space :: "char \<Rightarrow> bool" where
  "is_space c = (c = CHR '' '' \<or> c = CHR 0x09 \<or> c = CHR 0x0B \<or> c = CHR 0x0C \<or> c = CHR 0x0D)"

definition digit_val :: "char \<Rightarrow> nat" where
  "digit_val c = of_char c - 48"

definition nat_of_digits :: "string \<Rightarrow> nat" where
  "nat_of_digits ds = foldl (\<lambda>n c. 10 * n + digit_val c) 0 ds"

fun SkipSpace :: "string \<Rightarrow> string option" where
  "SkipSpace [] = Some []"
| "SkipSpace (c # cs) =
     (if c = CHR 0x0A then None
      else if is_space c then SkipSpace cs
      else Some (c # cs))"

fun take_digits :: "nat option \<Rightarrow> string \<Rightarrow> string \<times> string" where
  "take_digits lim [] = ([], [])"
| "take_digits lim (c # cs) =
     (if lim = Some 0 \<or> \<not> is_digit c then ([], c # cs)
      else (let (ds, rest) = take_digits (map_option (\<lambda>n. n - 1) lim) cs in (c # ds, rest)))"

definition ParseInt :: "bool \<Rightarrow> string \<Rightarrow> Value option" where
  "ParseInt neg ds =
     (let n = int (nat_of_digits ds); x = (if neg then - n else n)
      in if - (2 ^ 63) \<le> x \<and> x < 2 ^ 63 then Some (word_of_int x) else None)"

definition scanInt :: "nat option \<Rightarrow> string \<Rightarrow> (Value \<times> string) option" where
  "scanInt wid inp =
     (case SkipSpace inp of None \<Rightarrow> None
      | Some [] \<Rightarrow> None
      | Some (c # cs) \<Rightarrow>
          (let signed = (wid \<noteq> Some 0 \<and> (c = CHR ''+'' \<or> c = CHR ''-''));
               lim = (if signed then map_option (\<lambda>n. n - 1) wid else wid);
               (ds, rest) = take_digits lim (if signed then cs else c # cs)
           in if ds = [] then None
              else map_option (\<lambda>x. (x, rest)) (ParseInt (signed \<and> c = CHR ''-'') ds)))"

fun Sscanf :: "string \<Rightarrow> directive list \<Rightarrow> Value list \<Rightarrow> Value list" where
  "Sscanf inp [] args = args"
| "Sscanf inp (Lit c # ds) args =
     (case inp of [] \<Rightarrow> args
      | x # xs \<Rightarrow> if x = c then Sscanf xs ds args else args)"
| "Sscanf inp (Int_d zero wid # ds) [] = []"
| "Sscanf inp (Int_d zero wid # ds) (a # args) =
     (case scanInt wid inp of None \<Rightarrow> a # args
      | Some (x, rest) \<Rightarrow> x # Sscanf rest ds args)"

subsection \<open>Currency, String and Parse\<close>

record Currency =
  Name :: string
  Format :: "directive list"
  Ratio :: Value

text \<open>The format is \<^verbatim>\<open>"%d.%02d"\<close> followed by the currency sign; \<open>currency_sign\<close> holds
  the bytes of the sign as the source text of package db has them.\<close>

definition currency_sign :: string where
  "currency_sign = [CHR 0xC3, CHR 0xA2, CHR 0xE2, CHR 0x80, CHR 0x9A, CHR 0xC2, CHR 0xAC]"

definition Euro :: Currency where
  "Euro = \<lparr>Currency.Name = ''Euro'',
           Format = [Int_d False None, Lit (CHR ''.''), Int_d True (Some 2)] @ map Lit currency_sign,
           Ratio = 100\<rparr>"

definition DefaultCurrency :: Currency where
  "DefaultCurrency = Euro"

definition String :: "Value \<Rightarrow> string" where
  "String v = Sprintf (Format DefaultCurrency)
     [go_div v (Ratio DefaultCurrency), abs_Value (go_mod v (Ratio DefaultCurrency))]"

definition Parse :: "string \<Rightarrow> Value" where
  "Parse inp =
     (let r = Sscanf inp (Format DefaultCurrency) [0, 0]; maj = r ! 0; min = r ! 1
      in maj * Ratio DefaultCurrency + go_mod min (Ratio DefaultCurrency))"

text \<open>The earlier evolution of \<^verbatim>\<open>Value.String\<close> (the single-file program): the remainder
  goes into the second slot as it is.\<close>

definition String_v0 :: "Value \<Rightarrow> string" where
  "String_v0 v = Sprintf (Format DefaultCurrency)
     [go_div v (Ratio DefaultCurrency), go_mod v (Ratio DefaultCurrency)]"

section \<open>Persistence\<close>

text \<open>
  The operating system's part is a small file store: the bytes held at each path, the paths
  that cannot be read and the paths that cannot be written. \<^verbatim>\<open>ioutil.ReadFile\<close> and
  \<^verbatim>\<open>ioutil.WriteFile\<close> return Go's pair of result and error; a failing write is taken to
  leave the store as it was.
\<close>

record FS =
  content :: "string \<Rightarrow> string option"
  unreadable :: "string set"
  unwritable :: "string set"

definition ReadFile :: "FS \<Rightarrow> string \<Rightarrow> string \<times> error option" where
  "ReadFile fs path =
     (case content fs path of
        None \<Rightarrow> ([], Some (PathError ''open: no such file or directory''))
      | Some bytes \<Rightarrow>
          if path \<in> unreadable fs then ([], Some (PathError ''open: permission denied''))
          else (bytes, None))"

definition WriteFile :: "FS \<Rightarrow> string \<Rightarrow> string \<Rightarrow> FS \<times> error option" where
  "WriteFile fs path data =
     (if path \<in> unwritable fs then (fs, Some (PathError ''open: permission denied''))
      else (fs\<lparr>content := (content fs)(path \<mapsto> data)\<rparr>, None))"

text \<open>
  \<^verbatim>\<open>encoding/json\<close> is a parameter of the model: \<open>Marshal\<close> gives the bytes or an error,
  \<open>Unmarshal\<close> fills the database variable it is handed and may fail after filling part
  of it.
\<close>

record JSON =
  Marshal :: "Database \<Rightarrow> string \<times> error option"
  Unmarshal :: "string \<Rightarrow> Database \<Rightarrow> Database \<times> error option"

text \<open>The package functions read the path from the package variable
  \<^verbatim>\<open>defaultDatabasePath\<close>; here it is the argument \<open>path\<close>.\<close>

definition Open :: "JSON \<Rightarrow> string \<Rightarrow> FS \<Rightarrow> Database \<times> error option" where
  "Open J path fs =
     (let (bytes, err) = ReadFile fs path in
      if err \<noteq> None then (Database_zero, err)
      else let (database, err) = Unmarshal J bytes Database_zero in
        if err \<noteq> None then (Database_zero, None)
        else (database, None))"

definition Exists :: "string \<Rightarrow> FS \<Rightarrow> bool" where
  "Exists path fs = (content fs path \<noteq> None)"

definition Write :: "JSON \<Rightarrow> string \<Rightarrow> FS \<Rightarrow> Database \<Rightarrow> FS \<times> error option" where
  "Write J path fs database =
     (let (json, err) = Marshal J database in
      if err \<noteq> None then (fs, err)
      else let (fs', _) = WriteFile fs path json in (fs', None))"

text \<open>The package functions \<^verbatim>\<open>db.Store\<close>, \<^verbatim>\<open>db.Get\<close> and \<^verbatim>\<open>db.Delete\<close>.\<close>

definition db_Store :: "JSON \<Rightarrow> string \<Rightarrow> FS \<Rightarrow> Transaction \<Rightarrow> FS \<times> error option" where
  "db_Store J path fs transact =
     (let (database, err) = Open J path fs in
      if err \<noteq> None then (fs, err)
      else Write J path fs (Store database transact))"

definition db_Get :: "JSON \<Rightarrow> string \<Rightarrow> FS \<Rightarrow> int \<Rightarrow> Transaction \<times> error option" where
  "db_Get J path fs ID =
     (let (database, err) = Open J path fs in
      if err \<noteq> None then (Transaction_zero, err)
      else Read database ID)"

definition db_Delete :: "JSON \<Rightarrow> string \<Rightarrow> FS \<Rightarrow> int \<Rightarrow> FS \<times> error option" where
  "db_Delete J path fs ID =
     (let (database, err) = Open J path fs in
      if err \<noteq> None then (fs, err)
      else let (database', err) = Delete database ID in
        if err \<noteq> None then (fs, err)
        else Write J path fs database')"

subsection \<open>Two invocations against one file\<close>

text \<open>
  Each composite mutator touches the file twice: once in \<^verbatim>\<open>Open\<close> and once in
  \<^verbatim>\<open>Write\<close>, with the mutation of its private copy in between. A process is therefore
  at one of three points: before its \<^verbatim>\<open>Open\<close>, holding the database it has opened, or
  finished with its result. \<open>proc_step\<close> runs one process up to its next file access;
  \<open>run\<close> follows a schedule that names which of two processes moves next.
\<close>

datatype mutation = StoreTransaction Transaction | DeleteTransaction int

datatype proc = Start mutation | Opened mutation Database | Done "error option"

fun proc_step :: "JSON \<Rightarrow> string \<Rightarrow> proc \<times> FS \<Rightarrow> proc \<times> FS" where
  "proc_step J path (Start m, fs) =
     (let (database, err) = Open J path fs in
      if err \<noteq> None then (Done err, fs) else (Opened m database, fs))"
| "proc_step J path (Opened (StoreTransaction transact) database, fs) =
     (let (fs', err) = Write J path fs (Store database transact) in (Done err, fs'))"
| "proc_step J path (Opened (DeleteTransaction ID) database, fs) =
     (let (database', err) = Delete database ID in
      if err \<noteq> None then (Done err, fs)
      else let (fs', err) = Write J path fs database' in (Done err, fs'))"
| "proc_step J path (Done err, fs) = (Done err, fs)"

fun run :: "JSON \<Rightarrow> string \<Rightarrow> bool list \<Rightarrow> proc \<times> proc \<times> FS \<Rightarrow> proc \<times> proc \<times> FS" where
  "run J path [] s = s"
| "run J path (first # sched) (p, q, fs) =
     (if first then (let (p', fs') = proc_step J path (p, fs) in run J path sched (p', q, fs'))
      else (let (q', fs') = proc_step J path (q, fs) in run J path sched (p, q', fs')))"

text \<open>What a mutation does to a database in memory.\<close>

fun mutate :: "mutation \<Rightarrow> Database \<Rightarrow> Database \<times> error option" where
  "mutate (StoreTransaction transact) database = (Store database transact, None)"
| "mutate (DeleteTransaction ID) database = Delete database ID"

fun invoke :: "JSON \<Rightarrow> string \<Rightarrow> FS \<Rightarrow> mutation \<Rightarrow> FS \<times> error option" where
  "invoke J path fs (StoreTransaction transact) = db_Store J path fs transact"
| "invoke J path fs (DeleteTransaction ID) = db_Delete J path fs ID"

section \<open>Queries of the command line program\<close>

text \<open>\<^verbatim>\<open>strings.ToLower\<close> and \<^verbatim>\<open>strings.TrimSpace\<close>, on ASCII.\<close>

definition ToLower :: "string \<Rightarrow> string" where
  "ToLower s = map (\<lambda>c. if 65 \<le> (of_char c :: nat) \<and> (of_char c :: nat) \<le> 90
                         then char_of (of_char c + (32 :: nat)) else c) s"

definition is_white :: "char \<Rightarrow> bool" where
  "is_white c = (is_space c \<or> c = CHR 0x0A)"

definition TrimSpace :: "string \<Rightarrow> string" where
  "TrimSpace s = rev (dropWhile is_white (rev (dropWhile is_white s)))"

definition isTypeDeposit :: "string \<Rightarrow> bool" where
  "isTypeDeposit text =
     (let lc = ToLower (TrimSpace text) in lc = ''dp'' \<or> lc = ''deposit'' \<or> lc = ''depo'')"

definition isTypeWithdraw :: "string \<Rightarrow> bool" where
  "isTypeWithdraw text =
     (let lc = ToLower (TrimSpace text) in lc = ''wd'' \<or> lc = ''withdraw'' \<or> lc = ''draw'')"

text \<open>
  The loop of \<^verbatim>\<open>filterAction\<close> over \<open>ID = 0, 1, \<dots>\<close> that fills \<^verbatim>\<open>idMap\<close>; each
  \<^verbatim>\<open>continue\<close> goes to the next index without storing.
\<close>

function filter_loop ::
  "Database \<Rightarrow> string \<Rightarrow> Value \<Rightarrow> Value \<Rightarrow> string \<Rightarrow> int \<Rightarrow> (int \<Rightarrow> Transaction option)
     \<Rightarrow> error + (int \<Rightarrow> Transaction option)" where
  "filter_loop database namePredicate maxPredicate minPredicate typePredicate ID idMap =
     (if ID < Size database then
        (case Read database ID of
           (transact, Some err) \<Rightarrow> Inl err
         | (transact, None) \<Rightarrow>
             if namePredicate \<noteq> [] \<and> Transaction.Name transact \<noteq> namePredicate
               then filter_loop database namePredicate maxPredicate minPredicate typePredicate
                      (ID + 1) idMap
             else if maxPredicate \<noteq> ZeroValue \<and> Smaller maxPredicate (Amount transact)
               then filter_loop database namePredicate maxPredicate minPredicate typePredicate
                      (ID + 1) idMap
             else if minPredicate \<noteq> ZeroValue \<and> Larger minPredicate (Amount transact)
               then filter_loop database namePredicate maxPredicate minPredicate typePredicate
                      (ID + 1) idMap
             else if typePredicate \<noteq> [] \<and>
                     ((isTypeDeposit typePredicate \<and> Type transact \<noteq> Deposit) \<or>
                      (isTypeWithdraw typePredicate \<and> Type transact \<noteq> Withdraw))
               then filter_loop database namePredicate maxPredicate minPredicate typePredicate
                      (ID + 1) idMap
             else filter_loop database namePredicate maxPredicate minPredicate typePredicate
                    (ID + 1) (idMap(ID \<mapsto> transact)))
      else Inr idMap)"
  by pat_completeness auto
termination
  by (relation "measure (\<lambda>(database, n, mx, mn, t, ID, m). nat (Size database - ID))") auto

declare filter_loop.simps [simp del]

text \<open>\<^verbatim>\<open>filterAction\<close> up to the map it hands to \<^verbatim>\<open>printTransactionTable\<close>: the four
  flags arrive as text, the two amounts go through \<open>Parse\<close>.\<close>

definition filterAction ::
  "JSON \<Rightarrow> string \<Rightarrow> FS \<Rightarrow> string \<Rightarrow> string \<Rightarrow> string \<Rightarrow> string
     \<Rightarrow> error + (int \<Rightarrow> Transaction option)" where
  "filterAction J path fs nameFlag maxFlag minFlag typeFlag =
     (let (database, err) = Open J path fs in
      if err \<noteq> None then Inl (the err)
      else filter_loop database nameFlag (Parse maxFlag) (Parse minFlag) typeFlag 0 Map.empty)"

text \<open>
  The balance that \<^verbatim>\<open>printTransactionTable\<close> prints: the keys of the map in ascending
  order, and for each transaction the \<^verbatim>\<open>switch\<close> on its kind, which has no default case.
\<close>

definition balance_step :: "Value \<Rightarrow> Transaction \<Rightarrow> Value" where
  "balance_step balance transact =
     (if Type transact = Withdraw then Add balance (- Amount transact)
      else if Type transact = Deposit then Add balance (Amount transact)
      else balance)"

definition RunningBalance :: "Transaction list \<Rightarrow> Value" where
  "RunningBalance transactions = foldl balance_step 0 transactions"

definition lookup_Transaction :: "(int \<Rightarrow> Transaction option) \<Rightarrow> int \<Rightarrow> Transaction" where
  "lookup_Transaction transactions ID =
     (case transactions ID of None \<Rightarrow> Transaction_zero | Some t \<Rightarrow> t)"

definition printTransactionTable_balance :: "(int \<Rightarrow> Transaction option) \<Rightarrow> Value" where
  "printTransactionTable_balance transactions =
     RunningBalance (map (lookup_Transaction transactions) (sorted_list_of_set (dom transactions)))"

section \<open>Example data\<close>

text \<open>
  A ledger of three transactions, a transaction of a kind that is neither of the two
  constants, and a file store that holds the ledger. \<open>ex_JSON\<close> stands in for the JSON
  codec in the examples: it writes the name of the ledger and the names of its transactions,
  reads back the bytes of \<open>ex_ledger\<close>, and rejects any other bytes after it has filled
  in a name.
\<close>

definition ex_w50 :: Transaction where
  "ex_w50 = \<lparr>Transaction.Name = ''rent'', Amount = 50, Type = Withdraw, Date = 1\<rparr>"
definition ex_w150 :: Transaction where
  "ex_w150 = \<lparr>Transaction.Name = ''food'', Amount = 150, Type = Withdraw, Date = 2\<rparr>"
definition ex_d200 :: Transaction where
  "ex_d200 = \<lparr>Transaction.Name = ''salary'', Amount = 200, Type = Deposit, Date = 3\<rparr>"
definition ex_ledger :: Database where
  "ex_ledger = \<lparr>Database.Name = ''Home'', Transactions = [ex_w50, ex_w150, ex_d200]\<rparr>"

definition ex_path :: string where
  "ex_path = ''/home/user/.trdb''"

definition ex_JSON :: JSON where
  "ex_JSON = \<lparr>
     Marshal = (\<lambda>database.
       (Database.Name database @ '':'' @
          concat (map (\<lambda>t. Transaction.Name t @ '';'') (Transactions database)), None)),
     Unmarshal = (\<lambda>bytes database.
       if bytes = ''Home:rent;food;salary;'' then (ex_ledger, None)
       else (database\<lparr>Database.Name := takeWhile (\<lambda>c. c \<noteq> CHR '':'') bytes\<rparr>,
             Some (JSONError ''invalid character'')))\<rparr>"

definition ex_fs :: FS where
  "ex_fs = \<lparr>content = [ex_path \<mapsto> ''Home:rent;food;salary;''], unreadable = {}, unwritable = {}\<rparr>"

definition ex_fs_corrupt :: FS where
  "ex_fs_corrupt = \<lparr>content = [ex_path \<mapsto> ''Home, sweet home''], unreadable = {}, unwritable = {}\<rparr>"

definition ex_fs_readonly :: FS where
  "ex_fs_readonly = ex_fs\<lparr>unwritable := {ex_path}\<rparr>"

definition ex_other :: Transaction where
  "ex_other = \<lparr>Transaction.Name = ''gift'', Amount = 75, Type = ''transfer'', Date = 4\<rparr>"

section \<open>The filter condition\<close>

text \<open>The condition under which the loop of \<open>filterAction\<close> stores a transaction.\<close>

abbreviation (input) selected :: "string \<Rightarrow> Value \<Rightarrow> Value \<Rightarrow> string \<Rightarrow> Transaction \<Rightarrow> bool" where
  "selected n mx mn ty t \<equiv>
     (n \<noteq> [] \<longrightarrow> Transaction.Name t = n) \<and>
     (mn \<noteq> 0 \<longrightarrow> sint mn \<le> sint (Amount t)) \<and>
     (mx \<noteq> 0 \<longrightarrow> sint (Amount t) \<le> sint mx) \<and>
     (ty \<noteq> [] \<longrightarrow> (isTypeWithdraw ty \<longrightarrow> Type t = Withdraw) \<and>
                  (isTypeDeposit ty \<longrightarrow> Type t = Deposit))"



section \<open>The ledger\<close>

lemma Size_Store: "Size (Store db t) = Size db + 1"
  by (simp add: Size_def Store_def)

lemma nth_delete_before:
  "m < n \<Longrightarrow> n < length xs \<Longrightarrow> (take n xs @ drop (Suc n) xs) ! m = xs ! m"
  by (simp add: nth_append)

lemma nth_delete_after:
  "n < m \<Longrightarrow> m < length xs \<Longrightarrow> (take n xs @ drop (Suc n) xs) ! (m - 1) = xs ! m"
  by (auto simp: nth_append min_def)

lemma length_delete:
  "n < length xs \<Longrightarrow> length (take n xs @ drop (Suc n) xs) = length xs - 1"
  by simp

text \<open>
  Claim C1. For every ledger and every index \<open>i\<close> with \<open>0 \<le> i < Size\<close>, \<open>Delete\<close>
  succeeds, keeps the name and every transaction in front of \<open>i\<close>, moves every transaction
  that was at an index \<open>j > i\<close> down to \<open>j - 1\<close> (so the one that was at \<open>i\<close> is gone)
  and makes \<open>Size\<close> smaller by exactly one. For every index \<open>i < 0\<close> or \<open>i \<ge> Size\<close> it
  fails with the not-found error and the ledger is as before.
\<close>

theorem Delete_spec:
  "(0 \<le> i \<and> i < Size db \<longrightarrow>
      snd (Delete db i) = None \<and>
      Size (fst (Delete db i)) = Size db - 1 \<and>
      Database.Name (fst (Delete db i)) = Database.Name db \<and>
      (\<forall>j. 0 \<le> j \<and> j < i \<longrightarrow> Read (fst (Delete db i)) j = Read db j) \<and>
      (\<forall>j. i < j \<and> j < Size db \<longrightarrow> Read (fst (Delete db i)) (j - 1) = Read db j)) \<and>
   (i < 0 \<or> Size db \<le> i \<longrightarrow> Delete db i = (db, Some errTransactionNotFound))"
proof (intro conjI impI allI)
  assume v: "0 \<le> i \<and> i < Size db"
  then have len: "nat i < length (Transactions db)"
    by (simp add: Size_def nat_less_iff)
  have D: "Delete db i = (db\<lparr>Transactions :=
              take (nat i) (Transactions db) @ drop (Suc (nat i)) (Transactions db)\<rparr>, None)"
    using v by (simp add: Delete_def nat_add_distrib)
  show "snd (Delete db i) = None"
    by (simp add: D)
  show sz: "Size (fst (Delete db i)) = Size db - 1"
    using len by (simp add: D Size_def length_delete del: length_append)
  show "Database.Name (fst (Delete db i)) = Database.Name db"
    by (simp add: D)
  fix j
  { assume j: "0 \<le> j \<and> j < i"
    then have "nat j < nat i" by simp
    then have "(take (nat i) (Transactions db) @ drop (Suc (nat i)) (Transactions db)) ! nat j
                 = Transactions db ! nat j"
      using len by (rule nth_delete_before)
    then show "Read (fst (Delete db i)) j = Read db j"
      using v j sz by (simp add: Read_def D Size_def) }
  { assume j: "i < j \<and> j < Size db"
    then have "nat i < nat j" and "nat j < length (Transactions db)" and e: "nat (j - 1) = nat j - 1"
      using v by (simp_all add: Size_def nat_less_iff nat_diff_distrib)
    then have "(take (nat i) (Transactions db) @ drop (Suc (nat i)) (Transactions db)) ! (nat j - 1)
                 = Transactions db ! nat j"
      by (simp only: nth_delete_after)
    then show "Read (fst (Delete db i)) (j - 1) = Read db j"
      using v j sz e by (simp add: Read_def D Size_def) }
next
  assume "i < 0 \<or> Size db \<le> i"
  then show "Delete db i = (db, Some errTransactionNotFound)"
    by (auto simp: Delete_def)
qed

theorem Delete_spec_witness:
  "0 \<le> (1::int) \<and> 1 < Size ex_ledger \<and>
   Delete ex_ledger 1 = (\<lparr>Database.Name = ''Home'', Transactions = [ex_w50, ex_d200]\<rparr>, None) \<and>
   Size (fst (Delete ex_ledger 1)) = 2 \<and>
   Read (fst (Delete ex_ledger 1)) 0 = Read ex_ledger 0 \<and>
   Read (fst (Delete ex_ledger 1)) 1 = (ex_d200, None) \<and>
   Delete ex_ledger 3 = (ex_ledger, Some errTransactionNotFound) \<and>
   Delete ex_ledger (- 1) = (ex_ledger, Some errTransactionNotFound)"
  using Delete_spec [of 1 ex_ledger] Delete_spec [of 3 ex_ledger] Delete_spec [of "- 1" ex_ledger]
  by (simp add: ex_ledger_def Size_def Delete_def Read_def)

text \<open>
  Claim C2. \<open>Read\<close> returns the transaction stored at index \<open>i\<close> without error exactly
  when \<open>0 \<le> i < Size\<close>; at every other index it returns the not-found error, and it
  returns no other error.
\<close>

theorem Read_spec:
  "(0 \<le> i \<and> i < Size db \<longrightarrow> Read db i = (Transactions db ! nat i, None)) \<and>
   (i < 0 \<or> Size db \<le> i \<longrightarrow> Read db i = (Transaction_zero, Some errTransactionNotFound)) \<and>
   (snd (Read db i) = None) = (0 \<le> i \<and> i < Size db) \<and>
   (\<forall>e. snd (Read db i) = Some e \<longrightarrow> e = errTransactionNotFound)"
  by (auto simp: Read_def)

theorem Read_spec_witness:
  "0 \<le> (1::int) \<and> 1 < Size ex_ledger \<and> Read ex_ledger 1 = (ex_w150, None) \<and>
   Read ex_ledger 3 = (Transaction_zero, Some errTransactionNotFound) \<and>
   Read ex_ledger (- 1) = (Transaction_zero, Some errTransactionNotFound)"
  using Read_spec [of 1 ex_ledger] Read_spec [of 3 ex_ledger] Read_spec [of "- 1" ex_ledger]
  by (simp add: ex_ledger_def Size_def)

text \<open>
  Claim C8. \<open>Store\<close> has no failure: it appends the transaction at the end, so that the
  transaction is read back at the index that was the size before, and the size grows by one.
  On a newly created (empty) ledger, the stored transaction is read at index 0 and the size
  is 1.
\<close>

theorem Store_spec:
  "Transactions (Store db t) = Transactions db @ [t] \<and>
   Database.Name (Store db t) = Database.Name db \<and>
   Read (Store db t) (Size db) = (t, None) \<and>
   Size (Store db t) = Size db + 1 \<and>
   Size (NewDatabase name) = 0 \<and>
   Read (Store (NewDatabase name) t) 0 = (t, None) \<and>
   Size (Store (NewDatabase name) t) = 1"
  by (simp add: Store_def Read_def Size_def NewDatabase_def)

text \<open>
  The earlier evolution of \<open>Delete\<close> and \<open>Read\<close> has the guard inverted: every index in
  range is refused with the not-found error, and every index out of range passes the guard
  and panics in the slice or index expression.
\<close>

lemma Delete_v1_valid:
  "0 \<le> i \<Longrightarrow> i < Size db \<Longrightarrow> Delete_v1 db i = Some (db, Some errTransactionNotFound)"
  by (simp add: Delete_v1_def)

lemma Delete_v1_invalid:
  "i < 0 \<or> Size db \<le> i \<Longrightarrow> Delete_v1 db i = None"
  by (auto simp: Delete_v1_def)

lemma Read_v1_valid:
  "0 \<le> i \<Longrightarrow> i < Size db \<Longrightarrow> Read_v1 db i = Some (Transaction_zero, Some errTransactionNotFound)"
  by (simp add: Read_v1_def)

lemma Read_v1_invalid:
  "i < 0 \<or> Size db \<le> i \<Longrightarrow> Read_v1 db i = None"
  by (auto simp: Read_v1_def)

section \<open>Monetary values: scanning what was printed\<close>

text \<open>
  Digits first: \<open>dec_nat\<close> writes decimal digits only and \<open>nat_of_digits\<close> reads them
  back, so \<open>scanInt\<close> recovers what \<open>fmt_d\<close> printed, with or without a width. Then the
  arithmetic of the two slots in 64 bits, and the two together: \<open>Sscanf\<close> on the text of
  \<open>String v\<close> assigns exactly the two numbers that were printed.
\<close>

lemma of_char_digit_char: "d < 10 \<Longrightarrow> (of_char (digit_char d) :: nat) = 48 + d"
  by (simp add: digit_char_def)

lemma is_digit_digit_char: "d < 10 \<Longrightarrow> is_digit (digit_char d)"
  by (simp add: is_digit_def of_char_digit_char)

lemma digit_val_digit_char: "d < 10 \<Longrightarrow> digit_val (digit_char d) = d"
  by (simp add: digit_val_def of_char_digit_char)

lemma is_digit_not_space: "is_digit c \<Longrightarrow> \<not> is_space c \<and> c \<noteq> CHR 0x0A \<and> c \<noteq> CHR ''+'' \<and> c \<noteq> CHR ''-''"
  by (auto simp: is_digit_def is_space_def)

lemma dec_nat_digits: "\<forall>c \<in> set (dec_nat n). is_digit c"
proof (induction n rule: dec_nat.induct)
  case (1 n)
  show ?case
  proof (cases "n < 10")
    case True
    then show ?thesis by (simp add: dec_nat.simps [of n] is_digit_digit_char)
  next
    case False
    then show ?thesis using 1 by (simp add: dec_nat.simps [of n] is_digit_digit_char)
  qed
qed

lemma dec_nat_not_Nil: "dec_nat n \<noteq> []"
  by (subst dec_nat.simps) simp

lemma nat_of_digits_snoc: "nat_of_digits (ds @ [c]) = 10 * nat_of_digits ds + digit_val c"
  by (simp add: nat_of_digits_def)

lemma nat_of_digits_dec_nat: "nat_of_digits (dec_nat n) = n"
proof (induction n rule: dec_nat.induct)
  case (1 n)
  show ?case
  proof (cases "n < 10")
    case True
    then show ?thesis by (simp add: dec_nat.simps [of n] nat_of_digits_def digit_val_digit_char)
  next
    case False
    then show ?thesis using 1
      by (simp add: dec_nat.simps [of n] nat_of_digits_snoc digit_val_digit_char)
  qed
qed

lemma nat_of_digits_zeros: "nat_of_digits (replicate k (CHR ''0'') @ ds) = nat_of_digits ds"
  by (induction k) (simp_all add: nat_of_digits_def digit_val_def)

lemma take_digits_unlimited:
  "\<forall>c \<in> set ds. is_digit c \<Longrightarrow> rest = [] \<or> \<not> is_digit (hd rest)
     \<Longrightarrow> take_digits None (ds @ rest) = (ds, rest)"
proof (induction ds)
  case Nil
  then show ?case by (cases rest) simp_all
next
  case (Cons d ds)
  then show ?case by simp
qed

lemma take_digits_limited:
  "\<forall>c \<in> set ds. is_digit c \<Longrightarrow> take_digits (Some (length ds)) (ds @ rest) = (ds, rest)"
proof (induction ds)
  case Nil
  then show ?case by (cases rest) simp_all
next
  case (Cons d ds)
  then show ?case by simp
qed

lemma SkipSpace_digit: "is_digit c \<Longrightarrow> SkipSpace (c # cs) = Some (c # cs)"
  by (simp add: is_digit_not_space)

lemma scanInt_digits:
  assumes "ds \<noteq> []" and "\<forall>c \<in> set ds. is_digit c"
    and "rest = [] \<or> \<not> is_digit (hd rest)"
  shows "scanInt None (ds @ rest) = map_option (\<lambda>x. (x, rest)) (ParseInt False ds)"
proof -
  obtain d ds' where ds: "ds = d # ds'" using assms(1) by (cases ds) auto
  have d: "is_digit d" using assms(2) ds by simp
  have "take_digits None (d # ds' @ rest) = (ds, rest)"
    using take_digits_unlimited [OF assms(2,3)] ds by simp
  then show ?thesis
    using d is_digit_not_space [OF d] ds by (simp add: scanInt_def)
qed

lemma scanInt_minus_digits:
  assumes "ds \<noteq> []" and "\<forall>c \<in> set ds. is_digit c"
    and "rest = [] \<or> \<not> is_digit (hd rest)"
  shows "scanInt None (CHR ''-'' # ds @ rest) = map_option (\<lambda>x. (x, rest)) (ParseInt True ds)"
proof -
  have "take_digits None (ds @ rest) = (ds, rest)"
    using take_digits_unlimited [OF assms(2,3)] by simp
  then show ?thesis
    using assms(1) by (simp add: scanInt_def is_space_def)
qed

lemma scanInt_width:
  assumes "ds \<noteq> []" and "\<forall>c \<in> set ds. is_digit c"
  shows "scanInt (Some (length ds)) (ds @ rest) = map_option (\<lambda>x. (x, rest)) (ParseInt False ds)"
proof -
  obtain d ds' where ds: "ds = d # ds'" using assms(1) by (cases ds) auto
  have d: "is_digit d" using assms(2) ds by simp
  have "take_digits (Some (length ds)) (d # ds' @ rest) = (ds, rest)"
    using take_digits_limited [OF assms(2)] ds by simp
  then show ?thesis
    using d is_digit_not_space [OF d] ds by (simp add: scanInt_def)
qed

lemma sint64_of_int:
  "- (2 ^ 63) \<le> k \<Longrightarrow> k < 2 ^ 63 \<Longrightarrow> sint (word_of_int k :: 64 word) = k"
  by (simp add: sint_sbintrunc' signed_take_bit_int_eq_self)

lemma sint64_range: "- (2 ^ 63) \<le> sint (v :: 64 word) \<and> sint v < 2 ^ 63"
  using sint_ge [of v] sint_lt [of v] by simp

lemma uint_nonneg_sint:
  assumes "0 \<le> sint (x :: 64 word)"
  shows "uint x = sint x"
proof -
  have "sint x < 2 ^ 64" using sint64_range [of x] by simp
  then have "take_bit 64 (sint x) = sint x"
    using assms by (simp add: take_bit_int_eq_self)
  then show ?thesis by (simp add: uint_sint [of x])
qed

lemma uint_neg_sint:
  assumes "sint (x :: 64 word) < 0"
  shows "uint (- x) = - sint x"
proof -
  have "- x = word_of_int (- sint x)" by simp
  then have "uint (- x) = take_bit 64 (- sint x)"
    by (simp only: uint_word_of_int_eq) simp
  moreover have "- sint x < 2 ^ 64" using sint64_range [of x] by simp
  ultimately show ?thesis using assms by (simp add: take_bit_int_eq_self)
qed

lemma smod_100_range: "- 100 < (k::int) smod 100 \<and> k smod 100 < 100"
  using smod_int_range [of 100 k] by simp

lemma sdiv_100_range:
  assumes "- (2 ^ 63) \<le> (k::int)" and "k < 2 ^ 63"
  shows "- (2 ^ 63) \<le> k sdiv 100 \<and> k sdiv 100 < 2 ^ 63"
proof -
  have "\<bar>k sdiv 100\<bar> = \<bar>k\<bar> div 100"
    by (cases "k = 0") (simp_all add: signed_divide_int_def abs_mult)
  moreover have "\<bar>k\<bar> div 100 \<le> \<bar>k\<bar>"
    using zdiv_mono2 [of "\<bar>k\<bar>" 1 100] by simp
  ultimately show ?thesis using assms by linarith
qed

lemma sint_go_mod: "sint (go_mod v 100) = sint v smod 100"
  using smod_100_range [of "sint v"] by (simp add: go_mod_def sint64_of_int)

lemma sint_go_div: "sint (go_div v 100) = sint v sdiv 100"
  using sdiv_100_range [of "sint v"] sint64_range [of v] by (simp add: go_div_def sint64_of_int)

lemma go_div_mult_go_mod: "go_div v 100 * 100 + go_mod v 100 = v"
proof -
  have "go_div v 100 * 100 + go_mod v 100 = word_of_int (sint v sdiv 100 * 100 + sint v smod 100)"
    by (simp add: go_div_def go_mod_def)
  then show ?thesis by (simp only: sdiv_mult_smod_eq) simp
qed

lemma sint_abs_small:
  assumes "- 100 < sint (m :: 64 word)" and "sint m < 100"
  shows "sint (abs_Value m) = \<bar>sint m\<bar>"
proof (cases "sint m < 0")
  case True
  then have "sint (- m) = - sint m"
    using assms by (simp add: sint_word_minus signed_take_bit_int_eq_self)
  then show ?thesis using True by (simp add: abs_Value_def ZeroValue_def word_sless_alt)
next
  case False
  then show ?thesis by (simp add: abs_Value_def ZeroValue_def word_sless_alt)
qed

lemma sint_minor: "sint (abs_Value (go_mod v 100)) = \<bar>sint v smod 100\<bar>"
  using smod_100_range [of "sint v"] by (simp add: sint_abs_small sint_go_mod)

lemma ParseInt_dec_nat_nonneg:
  assumes "0 \<le> sint (x :: 64 word)"
  shows "ParseInt False (dec_nat (unat x)) = Some x"
proof -
  have "int (unat x) = sint x" using uint_nonneg_sint [OF assms] by simp
  then show ?thesis
    using sint64_range [of x] assms by (simp add: ParseInt_def nat_of_digits_dec_nat)
qed

lemma ParseInt_dec_nat_neg:
  assumes "sint (x :: 64 word) < 0"
  shows "ParseInt True (dec_nat (unat (- x))) = Some x"
proof -
  have "int (unat (- x)) = - sint x" using uint_neg_sint [OF assms] by simp
  then show ?thesis
    using sint64_range [of x] assms by (simp add: ParseInt_def nat_of_digits_dec_nat)
qed

lemma fmt_d_plain:
  "fmt_d False None x =
     (if sint x < 0 then CHR ''-'' # dec_nat (unat (- x)) else dec_nat (unat x))"
  by (simp add: fmt_d_def)

lemma scanInt_fmt_d:
  assumes "rest = [] \<or> \<not> is_digit (hd rest)"
  shows "scanInt None (fmt_d False None x @ rest) = Some (x, rest)"
proof (cases "sint x < 0")
  case True
  then show ?thesis
    using scanInt_minus_digits [OF dec_nat_not_Nil dec_nat_digits assms, of "unat (- x)"]
    by (simp add: fmt_d_plain ParseInt_dec_nat_neg)
next
  case False
  then show ?thesis
    using scanInt_digits [OF dec_nat_not_Nil dec_nat_digits assms, of "unat x"]
    by (simp add: fmt_d_plain ParseInt_dec_nat_nonneg)
qed

lemma length_dec_nat_small:
  assumes "n < 100"
  shows "length (dec_nat n) = (if n < 10 then 1 else 2)"
proof -
  have "n div 10 < 10" using assms by simp
  then show ?thesis
    by (simp add: dec_nat.simps [of n] dec_nat.simps [of "n div 10"])
qed

lemma fmt_d_minor:
  assumes "0 \<le> sint (y :: 64 word)" and "sint y < 100"
  shows "fmt_d True (Some 2) y =
           replicate (2 - length (dec_nat (unat y))) (CHR ''0'') @ dec_nat (unat y)"
    and "length (fmt_d True (Some 2) y) = 2"
proof -
  have "int (unat y) = sint y" using uint_nonneg_sint [OF assms(1)] by simp
  then have n: "unat y < 100" using assms(2) by linarith
  show "fmt_d True (Some 2) y =
           replicate (2 - length (dec_nat (unat y))) (CHR ''0'') @ dec_nat (unat y)"
    using assms(1) n by (simp add: fmt_d_def length_dec_nat_small)
  then show "length (fmt_d True (Some 2) y) = 2"
    using n by (simp add: length_dec_nat_small)
qed

lemma fmt_d_minor_digits:
  assumes "0 \<le> sint (y :: 64 word)" and "sint y < 100"
  shows "\<forall>c \<in> set (fmt_d True (Some 2) y). is_digit c"
proof -
  have "is_digit (CHR ''0'')" by (simp add: is_digit_def)
  then show ?thesis
    using dec_nat_digits [of "unat y"] by (auto simp: fmt_d_minor(1) [OF assms])
qed

lemma ParseInt_zeros: "ParseInt neg (replicate k (CHR ''0'') @ ds) = ParseInt neg ds"
  by (simp add: ParseInt_def nat_of_digits_zeros)

lemma scanInt_fmt_d_minor:
  assumes "0 \<le> sint (y :: 64 word)" and "sint y < 100"
  shows "scanInt (Some 2) (fmt_d True (Some 2) y @ rest) = Some (y, rest)"
proof -
  let ?ds = "fmt_d True (Some 2) y"
  have ne: "?ds \<noteq> []" using fmt_d_minor(2) [OF assms] by auto
  have "scanInt (Some (length ?ds)) (?ds @ rest) = map_option (\<lambda>x. (x, rest)) (ParseInt False ?ds)"
    by (rule scanInt_width [OF ne fmt_d_minor_digits [OF assms]])
  moreover have "ParseInt False ?ds = Some y"
    by (simp add: fmt_d_minor(1) [OF assms] ParseInt_zeros ParseInt_dec_nat_nonneg [OF assms(1)])
  ultimately show ?thesis by (simp add: fmt_d_minor(2) [OF assms])
qed

lemma minor_range: "0 \<le> sint (abs_Value (go_mod v 100)) \<and> sint (abs_Value (go_mod v 100)) < 100"
  using smod_100_range [of "sint v"] by (simp add: sint_minor abs_less_iff)

lemma String_unfold:
  "String v = fmt_d False None (go_div v 100) @ CHR ''.'' #
     fmt_d True (Some 2) (abs_Value (go_mod v 100)) @ currency_sign"
  by (simp add: String_def DefaultCurrency_def Euro_def currency_sign_def)

lemma Sscanf_String:
  "Sscanf (String v) (Format DefaultCurrency) [0, 0] = [go_div v 100, abs_Value (go_mod v 100)]"
proof -
  have dot: "\<not> is_digit (CHR ''.'')" by (simp add: is_digit_def)
  have a: "scanInt None (fmt_d False None (go_div v 100) @ CHR ''.'' # rest)
             = Some (go_div v 100, CHR ''.'' # rest)" for rest
    using dot by (simp add: scanInt_fmt_d)
  have b: "scanInt (Some 2) (fmt_d True (Some 2) (abs_Value (go_mod v 100)) @ rest)
             = Some (abs_Value (go_mod v 100), rest)" for rest
    using minor_range [of v] by (simp add: scanInt_fmt_d_minor)
  show ?thesis
    by (simp add: String_unfold) (simp add: DefaultCurrency_def Euro_def currency_sign_def a b)
qed

lemma go_mod_small:
  assumes "0 \<le> sint (y :: 64 word)" and "sint y < 100"
  shows "go_mod y 100 = y"
proof -
  have "sint y smod 100 = sint y"
    using assms by (simp add: smod_mod_positive)
  then show ?thesis by (simp add: go_mod_def)
qed

lemma Parse_String_eq:
  "Parse (String v) = go_div v 100 * 100 + abs_Value (go_mod v 100)"
proof -
  have "go_mod (abs_Value (go_mod v 100)) 100 = abs_Value (go_mod v 100)"
    using minor_range [of v] by (simp add: go_mod_small)
  then show ?thesis
    by (simp add: Parse_def Sscanf_String) (simp add: DefaultCurrency_def Euro_def)
qed

lemma abs_Value_go_mod_cases:
  "abs_Value (go_mod v 100) = (if sint v smod 100 < 0 then - go_mod v 100 else go_mod v 100)"
  by (simp add: abs_Value_def ZeroValue_def word_sless_alt sint_go_mod)

lemma neg_minor_neq:
  assumes "sint v smod 100 < 0"
  shows "- go_mod v 100 \<noteq> go_mod v 100"
proof
  assume e: "- go_mod v 100 = go_mod v 100"
  have "sint (- go_mod v 100) = - sint (go_mod v 100)"
    using smod_100_range [of "sint v"]
    by (simp add: sint_word_minus sint_go_mod signed_take_bit_int_eq_self)
  then have "- (sint v smod 100) = sint v smod 100"
    using e by (simp add: sint_go_mod)
  then show False using assms by simp
qed

text \<open>
  Parsing the rendered text of a value \<open>v\<close> gives \<open>v\<close> back exactly when \<open>v\<close> is not
  negative or has no minor part. For a negative value with a minor part the rendered minor
  part has lost its sign and \<open>Parse\<close> adds it to the negative major part.
\<close>

lemma Parse_String_iff:
  "(Parse (String v) = v) = (0 \<le> sint v \<or> sint v smod 100 = 0)"
proof (cases "sint v smod 100 < 0")
  case True
  have "sint v < 0"
  proof (rule ccontr)
    assume "\<not> sint v < 0"
    then have "0 \<le> sint v smod 100" by (simp add: smod_int_compares)
    then show False using True by simp
  qed
  moreover have "Parse (String v) \<noteq> v"
  proof
    assume "Parse (String v) = v"
    then have "go_div v 100 * 100 + - go_mod v 100 = go_div v 100 * 100 + go_mod v 100"
      using True by (simp only: Parse_String_eq abs_Value_go_mod_cases go_div_mult_go_mod if_True)
    then have "- go_mod v 100 = go_mod v 100" by (simp only: add_left_cancel)
    then show False using neg_minor_neq [OF True] by simp
  qed
  ultimately show ?thesis using True by simp
next
  case False
  then have "Parse (String v) = v"
    by (simp only: Parse_String_eq abs_Value_go_mod_cases go_div_mult_go_mod if_False)
  moreover have "0 \<le> sint v \<or> sint v smod 100 = 0"
  proof (cases "0 \<le> sint v")
    case True
    then show ?thesis by simp
  next
    case neg: False
    then have "sint v smod 100 \<le> 0" by (simp add: smod_int_compares)
    then show ?thesis using False by simp
  qed
  ultimately show ?thesis by simp
qed

text \<open>
  Claim C3, as the code has it. For every value \<open>v\<close> that is not negative or is a whole
  multiple of the ratio (it has no minor part), parsing the rendered text of \<open>v\<close> gives
  \<open>v\<close> back.
\<close>

theorem Parse_String_roundtrip:
  "0 \<le> sint v \<or> sint v smod 100 = 0 \<Longrightarrow> Parse (String v) = v"
  by (simp only: Parse_String_iff)

theorem Parse_String_roundtrip_witness:
  "(0 \<le> sint (1999 :: Value) \<or> sint (1999 :: Value) smod 100 = 0) \<and> Parse (String 1999) = 1999 \<and>
   (0 \<le> sint (- 500 :: Value) \<or> sint (- 500 :: Value) smod 100 = 0) \<and> Parse (String (- 500)) = - 500"
proof -
  have a: "0 \<le> sint (1999 :: Value) \<or> sint (1999 :: Value) smod 100 = 0"
    by simp
  have b: "0 \<le> sint (- 500 :: Value) \<or> sint (- 500 :: Value) smod 100 = 0"
    by (simp add: signed_modulo_int_def)
  from Parse_String_roundtrip [OF a] Parse_String_roundtrip [OF b] a b show ?thesis
    by blast
qed

text \<open>The claim as it was stated, for every signed value, fails at \<open>- 550\<close>: the text is
  \<^verbatim>\<open>-5.50\<close> with the sign, and it parses to \<open>- 450\<close>.\<close>

theorem Parse_String_counterexample:
  "Parse (String (- 550)) \<noteq> - 550"
  by code_simp

lemma Parse_String_negative_examples:
  "String (- 550) = ''-5.50'' @ currency_sign"
  "Parse (String (- 550)) = - 450"
  "String (- 50) = ''0.50'' @ currency_sign"
  "Parse (String (- 50)) = 50"
  by code_simp+

lemma minus_not_digit: "\<forall>c \<in> set ds. is_digit c \<Longrightarrow> count_list ds (CHR ''-'') = 0"
  by (induction ds) (auto simp: is_digit_def)

lemma count_minus_major:
  "count_list (fmt_d False None x) (CHR ''-'') = (if sint x < 0 then 1 else 0)"
  by (simp add: fmt_d_plain minus_not_digit dec_nat_digits)

text \<open>
  Claim C4. For every value \<open>v\<close>, negative ones included, the rendered text is the major
  part, a dot, the minor slot and the currency sign, where the minor slot holds the absolute
  value of the remainder of \<open>v\<close> by the ratio as exactly two decimal digits. The minor slot
  has no minus sign, and the only minus sign of the whole text is that of the major part.
\<close>

theorem String_minor_unsigned:
  "String v = fmt_d False None (go_div v (Ratio DefaultCurrency)) @ ''.'' @
              fmt_d True (Some 2) (abs_Value (go_mod v (Ratio DefaultCurrency))) @ currency_sign \<and>
   sint (abs_Value (go_mod v (Ratio DefaultCurrency))) = \<bar>sint v smod 100\<bar> \<and>
   length (fmt_d True (Some 2) (abs_Value (go_mod v (Ratio DefaultCurrency)))) = 2 \<and>
   list_all is_digit (fmt_d True (Some 2) (abs_Value (go_mod v (Ratio DefaultCurrency)))) \<and>
   CHR ''-'' \<notin> set (fmt_d True (Some 2) (abs_Value (go_mod v (Ratio DefaultCurrency)))) \<and>
   count_list (String v) (CHR ''-'') = (if sint (go_div v (Ratio DefaultCurrency)) < 0 then 1 else 0)"
proof -
  let ?m = "abs_Value (go_mod v 100)"
  have R: "Ratio DefaultCurrency = 100"
    by (simp add: DefaultCurrency_def Euro_def)
  have r: "0 \<le> sint ?m" "sint ?m < 100"
    using minor_range [of v] by simp_all
  have d: "\<forall>c \<in> set (fmt_d True (Some 2) ?m). is_digit c"
    by (rule fmt_d_minor_digits [OF r])
  have c0: "count_list (fmt_d True (Some 2) ?m) (CHR ''-'') = 0"
    by (rule minus_not_digit [OF d])
  have "String v = fmt_d False None (go_div v 100) @ ''.'' @ fmt_d True (Some 2) ?m @ currency_sign"
    by (simp add: String_unfold)
  moreover have "sint ?m = \<bar>sint v smod 100\<bar>"
    by (rule sint_minor)
  moreover have "length (fmt_d True (Some 2) ?m) = 2"
    by (rule fmt_d_minor(2) [OF r])
  moreover have "list_all is_digit (fmt_d True (Some 2) ?m)"
    using d by (simp add: list_all_iff)
  moreover have "CHR ''-'' \<notin> set (fmt_d True (Some 2) ?m)"
    using c0 by (simp add: count_list_0_iff)
  moreover have "count_list (String v) (CHR ''-'') = (if sint (go_div v 100) < 0 then 1 else 0)"
    by (simp add: String_unfold count_minus_major c0 currency_sign_def)
  ultimately show ?thesis unfolding R by blast
qed

theorem String_minor_unsigned_witness:
  "sint (abs_Value (go_mod (- 550) (Ratio DefaultCurrency))) = 50 \<and>
   CHR ''-'' \<notin> set (fmt_d True (Some 2) (abs_Value (go_mod (- 550) (Ratio DefaultCurrency)))) \<and>
   count_list (String (- 550)) (CHR ''-'') = 1"
proof -
  note t = String_minor_unsigned [of "- 550"]
  have a: "\<bar>sint (- 550 :: 64 word) smod 100\<bar> = 50"
    by (simp add: signed_modulo_int_def)
  have b: "sint (go_div (- 550) (Ratio DefaultCurrency)) < 0"
    by code_simp
  from t have 1: "sint (abs_Value (go_mod (- 550) (Ratio DefaultCurrency))) = \<bar>sint (- 550 :: 64 word) smod 100\<bar>"
    by blast
  from t have 2: "CHR ''-'' \<notin> set (fmt_d True (Some 2) (abs_Value (go_mod (- 550) (Ratio DefaultCurrency))))"
    by blast
  from t have 3: "count_list (String (- 550)) (CHR ''-'') =
      (if sint (go_div (- 550) (Ratio DefaultCurrency)) < 0 then 1 else 0)"
    by blast
  show ?thesis
    using 2 by (simp only: 1 a 3 b if_True) simp
qed

text \<open>The earlier evolution of \<open>String\<close> wrote the remainder with its sign.\<close>

lemma String_v0_negative:
  "String_v0 (- 550) = ''-5.-50'' @ currency_sign"
  by code_simp

section \<open>Reading and writing the file\<close>

text \<open>
  Claim C5. When the bytes of the file can be read and \<open>Unmarshal\<close> reports an error on
  them, \<open>Open\<close> returns the empty ledger (no name, no transactions) and no error; what
  \<open>Unmarshal\<close> had filled in before failing is dropped.
\<close>

theorem Open_undeserializable:
  "ReadFile fs path = (bytes, None) \<Longrightarrow> snd (Unmarshal J bytes Database_zero) \<noteq> None
     \<Longrightarrow> Open J path fs = (Database_zero, None) \<and>
         Database.Name Database_zero = [] \<and> Transactions Database_zero = []"
  by (auto simp: Open_def Database_zero_def split: prod.splits)

theorem Open_undeserializable_witness:
  "ReadFile ex_fs_corrupt ex_path = (''Home, sweet home'', None) \<and>
   Unmarshal ex_JSON ''Home, sweet home'' Database_zero
     = (\<lparr>Database.Name = ''Home, sweet home'', Transactions = []\<rparr>, Some (JSONError ''invalid character'')) \<and>
   Open ex_JSON ex_path ex_fs_corrupt = (\<lparr>Database.Name = [], Transactions = []\<rparr>, None)"
proof -
  have r: "ReadFile ex_fs_corrupt ex_path = (''Home, sweet home'', None)"
    by (simp add: ReadFile_def ex_fs_corrupt_def)
  have u: "Unmarshal ex_JSON ''Home, sweet home'' Database_zero
     = (\<lparr>Database.Name = ''Home, sweet home'', Transactions = []\<rparr>, Some (JSONError ''invalid character''))"
    by (simp add: ex_JSON_def Database_zero_def)
  then have "snd (Unmarshal ex_JSON ''Home, sweet home'' Database_zero) \<noteq> None"
    by simp
  from Open_undeserializable [OF r this] r u show ?thesis
    by (simp add: Database_zero_def)
qed

text \<open>A file that cannot be read is reported with the error of \<open>ReadFile\<close>.\<close>

lemma Open_unreadable:
  "snd (ReadFile fs path) \<noteq> None \<Longrightarrow> Open J path fs = (Database_zero, snd (ReadFile fs path))"
  by (auto simp: Open_def split: prod.splits)

text \<open>The only error \<open>Write\<close> returns is that of \<open>Marshal\<close>: the result of
  \<open>WriteFile\<close> is not looked at.\<close>

lemma Write_error_is_Marshal_error: "snd (Write J path fs database) = snd (Marshal J database)"
  by (auto simp: Write_def split: prod.splits)

text \<open>
  Claim C6 says that \<open>Write\<close> fails with the I/O error when the file cannot be written and
  succeeds only when the serialized ledger is in the file. The code does otherwise: at a
  path that cannot be written, with a ledger that serializes, \<open>WriteFile\<close> fails, the
  store is as before, and \<open>Write\<close> still returns no error.
\<close>

theorem Write_drops_WriteFile_error:
  "path \<in> unwritable fs \<Longrightarrow> snd (Marshal J database) = None
     \<Longrightarrow> snd (WriteFile fs path (fst (Marshal J database))) \<noteq> None \<and>
         Write J path fs database = (fs, None)"
  by (auto simp: Write_def WriteFile_def split: prod.splits)

theorem Write_drops_WriteFile_error_witness:
  "ex_path \<in> unwritable ex_fs_readonly \<and>
   Marshal ex_JSON (NewDatabase ''Work'') = (''Work:'', None) \<and>
   WriteFile ex_fs_readonly ex_path ''Work:'' = (ex_fs_readonly, Some (PathError ''open: permission denied'')) \<and>
   Write ex_JSON ex_path ex_fs_readonly (NewDatabase ''Work'') = (ex_fs_readonly, None) \<and>
   content ex_fs_readonly ex_path = Some ''Home:rent;food;salary;''"
proof -
  have p: "ex_path \<in> unwritable ex_fs_readonly"
    by (simp add: ex_fs_readonly_def)
  have m: "Marshal ex_JSON (NewDatabase ''Work'') = (''Work:'', None)"
    by (simp add: ex_JSON_def NewDatabase_def)
  then have "snd (Marshal ex_JSON (NewDatabase ''Work'')) = None"
    by simp
  from Write_drops_WriteFile_error [OF p this] p m show ?thesis
    by (simp add: WriteFile_def) (simp add: ex_fs_readonly_def ex_fs_def)
qed

section \<open>The running balance\<close>

lemma balance_step_other:
  "Type t \<noteq> Withdraw \<Longrightarrow> Type t \<noteq> Deposit \<Longrightarrow> balance_step b t = b"
  by (simp add: balance_step_def)

lemma foldl_balance_step_filter:
  "foldl balance_step b (filter (\<lambda>t. Type t = Withdraw \<or> Type t = Deposit) ts)
     = foldl balance_step b ts"
  by (induction ts arbitrary: b) (auto simp: balance_step_def)

text \<open>
  Claim C10. In the running balance a transaction whose kind is neither \<^verbatim>\<open>"withdraw"\<close> nor
  \<^verbatim>\<open>"deposit"\<close> leaves the balance as it is: the balance of a sequence is the balance of
  the sequence without these transactions, and taking one of them out anywhere in a
  sequence does not change the balance.
\<close>

theorem RunningBalance_other_kinds:
  "RunningBalance (filter (\<lambda>t. Type t = Withdraw \<or> Type t = Deposit) ts) = RunningBalance ts \<and>
   (\<forall>b t. Type t \<noteq> Withdraw \<and> Type t \<noteq> Deposit \<longrightarrow> balance_step b t = b) \<and>
   (\<forall>t. Type t \<noteq> Withdraw \<and> Type t \<noteq> Deposit \<longrightarrow>
      RunningBalance (ts @ t # us) = RunningBalance (ts @ us))"
  by (simp add: RunningBalance_def foldl_balance_step_filter balance_step_other)

theorem RunningBalance_other_kinds_witness:
  "Type ex_other \<noteq> Withdraw \<and> Type ex_other \<noteq> Deposit \<and>
   balance_step 7 ex_other = 7 \<and>
   RunningBalance [ex_d200, ex_other, ex_w50] = RunningBalance [ex_d200, ex_w50] \<and>
   RunningBalance [ex_d200, ex_w50] = 150"
proof -
  have k: "Type ex_other \<noteq> Withdraw \<and> Type ex_other \<noteq> Deposit"
    by (simp add: ex_other_def Withdraw_def Deposit_def)
  have v: "RunningBalance [ex_d200, ex_w50] = 150"
    by (simp add: RunningBalance_def balance_step_def ex_d200_def ex_w50_def Withdraw_def Deposit_def Add_def)
  from RunningBalance_other_kinds [of "[ex_d200]" "[ex_w50]"] k v show ?thesis
    by simp
qed

text \<open>
  The same at the table: \<^verbatim>\<open>printTransactionTable\<close> walks the keys of its map in ascending
  order, and a map without the transactions of other kinds gives the same balance.
\<close>

lemma sorted_list_of_set_Collect:
  "finite A \<Longrightarrow> sorted_list_of_set {x \<in> A. P x} = filter P (sorted_list_of_set A)"
  by (rule sorted_distinct_set_unique) (auto intro: sorted_wrt_filter)

lemma map_lookup_known:
  "set ks \<subseteq> dom m \<Longrightarrow>
   map (lookup_Transaction
          (\<lambda>k. case m k of None \<Rightarrow> None
               | Some t \<Rightarrow> if Type t = Withdraw \<or> Type t = Deposit then Some t else None))
       (filter (\<lambda>k. Type (lookup_Transaction m k) = Withdraw \<or> Type (lookup_Transaction m k) = Deposit) ks)
   = filter (\<lambda>t. Type t = Withdraw \<or> Type t = Deposit) (map (lookup_Transaction m) ks)"
  by (induction ks) (auto simp: lookup_Transaction_def)

lemma printTransactionTable_balance_other_kinds:
  assumes "finite (dom m)"
  shows "printTransactionTable_balance
           (\<lambda>k. case m k of None \<Rightarrow> None
                | Some t \<Rightarrow> if Type t = Withdraw \<or> Type t = Deposit then Some t else None)
         = printTransactionTable_balance m"
proof -
  let ?m' = "\<lambda>k. case m k of None \<Rightarrow> None
                | Some t \<Rightarrow> if Type t = Withdraw \<or> Type t = Deposit then Some t else None"
  let ?P = "\<lambda>k. Type (lookup_Transaction m k) = Withdraw \<or> Type (lookup_Transaction m k) = Deposit"
  have "dom ?m' = {k \<in> dom m. ?P k}"
    by (auto simp: lookup_Transaction_def split: option.splits if_splits)
  then have "sorted_list_of_set (dom ?m') = filter ?P (sorted_list_of_set (dom m))"
    using assms by (simp only: sorted_list_of_set_Collect)
  moreover have "set (sorted_list_of_set (dom m)) \<subseteq> dom m"
    using assms by simp
  ultimately show ?thesis
    by (simp only: printTransactionTable_balance_def map_lookup_known RunningBalance_def
          foldl_balance_step_filter)
qed

text \<open>The balance printed under the filtered table of the example.\<close>

lemma printTransactionTable_balance_example:
  "printTransactionTable_balance [1 \<mapsto> ex_w150] = - 150"
  by (simp add: printTransactionTable_balance_def lookup_Transaction_def RunningBalance_def
        balance_step_def ex_w150_def Withdraw_def Add_def)

text \<open>The example of the specification: a deposit of 500 and a withdrawal of 200.\<close>

lemma RunningBalance_example:
  "RunningBalance
     [\<lparr>Transaction.Name = ''a'', Amount = 500, Type = Deposit, Date = 0\<rparr>,
      \<lparr>Transaction.Name = ''b'', Amount = 200, Type = Withdraw, Date = 0\<rparr>] = 300"
  by (simp add: RunningBalance_def balance_step_def Withdraw_def Deposit_def Add_def)

section \<open>The lost update\<close>

text \<open>Two steps of one process are one call of the package function.\<close>

lemma proc_steps_invoke:
  "proc_step J path (proc_step J path (Start m, fs)) =
     (Done (snd (invoke J path fs m)), fst (invoke J path fs m))"
proof (cases m)
  case (StoreTransaction t)
  then show ?thesis
    by (auto simp: db_Store_def split: prod.splits)
next
  case (DeleteTransaction i)
  then show ?thesis
    by (auto simp: db_Delete_def split: prod.splits)
qed

lemma Open_ok:
  "ReadFile fs path = (bytes, None) \<Longrightarrow> Unmarshal J bytes Database_zero = (db0, None)
     \<Longrightarrow> Open J path fs = (db0, None)"
  by (simp add: Open_def)

lemma Write_ok:
  "path \<notin> unwritable fs \<Longrightarrow> Marshal J database = (b, None)
     \<Longrightarrow> Write J path fs database = (fs\<lparr>content := (content fs)(path \<mapsto> b)\<rparr>, None)"
  by (simp add: Write_def WriteFile_def)

lemma proc_step_Start:
  "Open J path fs = (db0, None) \<Longrightarrow> proc_step J path (Start m, fs) = (Opened m db0, fs)"
  by simp

lemma proc_step_Opened:
  "mutate m db0 = (db1, None) \<Longrightarrow> Write J path fs db1 = (fs', None)
     \<Longrightarrow> proc_step J path (Opened m db0, fs) = (Done None, fs')"
  by (cases m) simp_all

lemma invoke_ok:
  "Open J path fs = (db0, None) \<Longrightarrow> mutate m db0 = (db1, None)
     \<Longrightarrow> invoke J path fs m = Write J path fs db1"
  by (cases m) (simp_all add: db_Store_def db_Delete_def)

text \<open>
  Claim C9. Two composite mutators start on the same readable, writable file that holds a
  ledger, and each mutation succeeds on that ledger. In the interleaving where both open
  before either writes, both finish without error; the file first holds the outcome of the
  first mutation, and at the end it holds exactly what the second invocation alone would
  have written: the first mutation is gone.
\<close>

theorem lost_update:
  assumes "ReadFile fs path = (bytes, None)"
    and "Unmarshal J bytes Database_zero = (db0, None)"
    and "path \<notin> unwritable fs"
    and "mutate m1 db0 = (db1, None)" and "Marshal J db1 = (b1, None)"
    and "mutate m2 db0 = (db2, None)" and "Marshal J db2 = (b2, None)"
  shows "run J path [True, False, True, False] (Start m1, Start m2, fs)
           = (Done None, Done None, fs\<lparr>content := (content fs)(path \<mapsto> b2)\<rparr>) \<and>
         invoke J path fs m2 = (fs\<lparr>content := (content fs)(path \<mapsto> b2)\<rparr>, None) \<and>
         run J path [True, False, True] (Start m1, Start m2, fs)
           = (Done None, Opened m2 db0, fs\<lparr>content := (content fs)(path \<mapsto> b1)\<rparr>)"
proof -
  let ?fs1 = "fs\<lparr>content := (content fs)(path \<mapsto> b1)\<rparr>"
  let ?fs2 = "fs\<lparr>content := (content fs)(path \<mapsto> b2)\<rparr>"
  have o: "Open J path fs = (db0, None)"
    by (rule Open_ok [OF assms(1,2)])
  have s1: "proc_step J path (Start m1, fs) = (Opened m1 db0, fs)"
    and s2: "proc_step J path (Start m2, fs) = (Opened m2 db0, fs)"
    using o by (rule proc_step_Start)+
  have w1: "Write J path fs db1 = (?fs1, None)"
    by (rule Write_ok [OF assms(3,5)])
  have s3: "proc_step J path (Opened m1 db0, fs) = (Done None, ?fs1)"
    by (rule proc_step_Opened [OF assms(4) w1])
  have "path \<notin> unwritable ?fs1" using assms(3) by simp
  then have w2: "Write J path ?fs1 db2 = (?fs2, None)"
    using Write_ok [of path ?fs1 J db2 b2] assms(7) by simp
  have s4: "proc_step J path (Opened m2 db0, ?fs1) = (Done None, ?fs2)"
    by (rule proc_step_Opened [OF assms(6) w2])
  have i2: "invoke J path fs m2 = (?fs2, None)"
    using invoke_ok [OF o assms(6)] Write_ok [OF assms(3,7)] by simp
  show ?thesis
    by (simp add: s1 s2 s3 s4 i2 del: proc_step.simps)
qed

theorem lost_update_witness:
  "run ex_JSON ex_path [True, False, True, False]
     (Start (StoreTransaction ex_other), Start (DeleteTransaction 0), ex_fs)
     = (Done None, Done None, ex_fs\<lparr>content := [ex_path \<mapsto> ''Home:food;salary;'']\<rparr>) \<and>
   run ex_JSON ex_path [True, False, True]
     (Start (StoreTransaction ex_other), Start (DeleteTransaction 0), ex_fs)
     = (Done None, Opened (DeleteTransaction 0) ex_ledger,
        ex_fs\<lparr>content := [ex_path \<mapsto> ''Home:rent;food;salary;gift;'']\<rparr>)"
proof -
  have r: "ReadFile ex_fs ex_path = (''Home:rent;food;salary;'', None)"
    by (simp add: ReadFile_def ex_fs_def)
  have u: "Unmarshal ex_JSON ''Home:rent;food;salary;'' Database_zero = (ex_ledger, None)"
    by (simp add: ex_JSON_def)
  have w: "ex_path \<notin> unwritable ex_fs"
    by (simp add: ex_fs_def)
  have m1: "mutate (StoreTransaction ex_other) ex_ledger = (Store ex_ledger ex_other, None)"
    by simp
  have b1: "Marshal ex_JSON (Store ex_ledger ex_other) = (''Home:rent;food;salary;gift;'', None)"
    by (simp add: ex_JSON_def Store_def ex_ledger_def ex_w50_def ex_w150_def ex_d200_def ex_other_def)
  have m2: "mutate (DeleteTransaction 0) ex_ledger
              = (\<lparr>Database.Name = ''Home'', Transactions = [ex_w150, ex_d200]\<rparr>, None)"
    by (simp add: Delete_def Size_def ex_ledger_def)
  have b2: "Marshal ex_JSON \<lparr>Database.Name = ''Home'', Transactions = [ex_w150, ex_d200]\<rparr>
              = (''Home:food;salary;'', None)"
    by (simp add: ex_JSON_def ex_w150_def ex_d200_def)
  have c: "(content ex_fs)(ex_path \<mapsto> bs) = [ex_path \<mapsto> bs]" for bs
    by (simp add: ex_fs_def)
  from lost_update [OF r u w m1 b1 m2 b2] show ?thesis
    unfolding c by blast
qed

section \<open>Filter\<close>

text \<open>One turn of the loop either stores the transaction at the index or leaves the map as
  it is; by induction on the distance to the end, the loop from any index adds exactly the
  selected transactions from that index on.\<close>

lemma filter_loop_step:
  assumes "0 \<le> ID" and "ID < Size db"
  shows "filter_loop db n mx mn ty ID m =
           filter_loop db n mx mn ty (ID + 1)
             (if selected n mx mn ty (Transactions db ! nat ID)
              then m(ID \<mapsto> Transactions db ! nat ID) else m)"
proof -
  have r: "Read db ID = (Transactions db ! nat ID, None)"
    using assms by (simp add: Read_def)
  show ?thesis
    using assms(2)
    by (subst filter_loop.simps) (auto simp: r ZeroValue_def Smaller_def Larger_def)
qed

lemma select_update:
  fixes ID N :: int
  assumes "ID < N"
  shows "(\<lambda>k. if ID + 1 \<le> k \<and> k < N \<and> P k then Some (f k)
              else (if P ID then m(ID \<mapsto> f ID) else m) k)
       = (\<lambda>k. if ID \<le> k \<and> k < N \<and> P k then Some (f k) else m k)"
proof
  fix k
  consider "k = ID" | "k < ID" | "ID + 1 \<le> k" by linarith
  then show "(if ID + 1 \<le> k \<and> k < N \<and> P k then Some (f k)
              else (if P ID then m(ID \<mapsto> f ID) else m) k)
       = (if ID \<le> k \<and> k < N \<and> P k then Some (f k) else m k)"
    using assms by cases simp_all
qed

lemma filter_loop_from:
  "0 \<le> ID \<Longrightarrow>
   filter_loop db n mx mn ty ID m =
     Inr (\<lambda>k. if ID \<le> k \<and> k < Size db \<and> selected n mx mn ty (Transactions db ! nat k)
               then Some (Transactions db ! nat k) else m k)"
proof (induction "nat (Size db - ID)" arbitrary: ID m)
  case 0
  then have "\<not> ID < Size db" by simp
  then show ?case
    by (subst filter_loop.simps) (auto simp: fun_eq_iff)
next
  case (Suc d)
  then have lt: "ID < Size db" and d: "d = nat (Size db - (ID + 1))" and nn: "0 \<le> ID + 1"
    by simp_all
  let ?t = "Transactions db ! nat ID"
  let ?m' = "if selected n mx mn ty ?t then m(ID \<mapsto> ?t) else m"
  have "filter_loop db n mx mn ty ID m = filter_loop db n mx mn ty (ID + 1) ?m'"
    by (rule filter_loop_step [OF Suc.prems lt])
  also have "\<dots> = Inr (\<lambda>k. if ID + 1 \<le> k \<and> k < Size db \<and> selected n mx mn ty (Transactions db ! nat k)
               then Some (Transactions db ! nat k) else ?m' k)"
    by (rule Suc.hyps(1) [OF d nn])
  also have "(\<lambda>k. if ID + 1 \<le> k \<and> k < Size db \<and> selected n mx mn ty (Transactions db ! nat k)
               then Some (Transactions db ! nat k) else ?m' k)
           = (\<lambda>k. if ID \<le> k \<and> k < Size db \<and> selected n mx mn ty (Transactions db ! nat k)
               then Some (Transactions db ! nat k) else m k)"
    by (rule select_update [OF lt])
  finally show ?case .
qed


text \<open>The synonyms, in any case and with surrounding blanks.\<close>

lemma synonyms:
  "isTypeWithdraw ''wd''" "isTypeWithdraw ''withdraw''" "isTypeWithdraw ''draw''"
  "isTypeWithdraw ''WD''" "isTypeWithdraw ''Withdraw''" "isTypeWithdraw '' Draw ''"
  "isTypeDeposit ''dp''" "isTypeDeposit ''deposit''" "isTypeDeposit ''depo''"
  "isTypeDeposit ''DP''" "isTypeDeposit ''Deposit''" "isTypeDeposit ''DEPO''"
  "\<not> isTypeDeposit ''wd''" "\<not> isTypeWithdraw ''dp''"
  "\<not> isTypeDeposit ''savings''" "\<not> isTypeWithdraw ''savings''"
  by code_simp+

text \<open>The example of the claim: kind \<^verbatim>\<open>wd\<close> and minimum 100 over a withdrawal of 50, a
  withdrawal of 150 and a deposit of 200 give the second entry only, under index 1.\<close>

lemma example_selection:
  "(\<lambda>k. if 0 \<le> k \<and> k < Size ex_ledger \<and>
           (([]::string) \<noteq> [] \<longrightarrow> Transaction.Name (Transactions ex_ledger ! nat k) = []) \<and>
           ((100::Value) \<noteq> 0 \<longrightarrow> sint (100::Value) \<le> sint (Amount (Transactions ex_ledger ! nat k))) \<and>
           ((0::Value) \<noteq> 0 \<longrightarrow> sint (Amount (Transactions ex_ledger ! nat k)) \<le> sint (0::Value)) \<and>
           (''wd'' \<noteq> [] \<longrightarrow>
              (isTypeWithdraw ''wd'' \<longrightarrow> Type (Transactions ex_ledger ! nat k) = Withdraw) \<and>
              (isTypeDeposit ''wd'' \<longrightarrow> Type (Transactions ex_ledger ! nat k) = Deposit))
         then Some (Transactions ex_ledger ! nat k) else None) = [1 \<mapsto> ex_w150]"
proof
  fix k :: int
  have w: "isTypeWithdraw ''wd''" and d: "\<not> isTypeDeposit ''wd''"
    by code_simp+
  consider "k < 0" | "k = 0" | "k = 1" | "k = 2" | "3 \<le> k" by linarith
  then show "(if 0 \<le> k \<and> k < Size ex_ledger \<and>
           (([]::string) \<noteq> [] \<longrightarrow> Transaction.Name (Transactions ex_ledger ! nat k) = []) \<and>
           ((100::Value) \<noteq> 0 \<longrightarrow> sint (100::Value) \<le> sint (Amount (Transactions ex_ledger ! nat k))) \<and>
           ((0::Value) \<noteq> 0 \<longrightarrow> sint (Amount (Transactions ex_ledger ! nat k)) \<le> sint (0::Value)) \<and>
           (''wd'' \<noteq> [] \<longrightarrow>
              (isTypeWithdraw ''wd'' \<longrightarrow> Type (Transactions ex_ledger ! nat k) = Withdraw) \<and>
              (isTypeDeposit ''wd'' \<longrightarrow> Type (Transactions ex_ledger ! nat k) = Deposit))
         then Some (Transactions ex_ledger ! nat k) else None) = [1 \<mapsto> ex_w150] k"
    by cases
      (simp_all add: w d ex_ledger_def Size_def ex_w50_def ex_w150_def ex_d200_def
         Withdraw_def Deposit_def)
qed



text \<open>The same example through \<open>filterAction\<close>, with the flags as text.\<close>

lemma Parse_flags: "Parse [] = 0" "Parse ''1.00'' = 100"
  by code_simp+

lemma filterAction_example:
  "filterAction ex_JSON ex_path ex_fs [] [] ''1.00'' ''wd'' = Inr [1 \<mapsto> ex_w150]"
proof -
  have o: "Open ex_JSON ex_path ex_fs = (ex_ledger, None)"
    by (simp add: Open_def ReadFile_def ex_fs_def ex_JSON_def)
  have z: "(0::int) \<le> 0"
    by simp
  have f: "filter_loop ex_ledger [] 0 100 ''wd'' 0 Map.empty = Inr [1 \<mapsto> ex_w150]"
    using filter_loop_from [OF z, of ex_ledger "[]" 0 100 "''wd''" Map.empty]
    by (simp only: example_selection)
  show ?thesis
    by (simp add: filterAction_def Parse_flags o f)
qed

end
